theory Spec2Isabelle
  imports Main
begin

section \<open>The crawler's SQL datastore (db/mysql.go)\<close>

text \<open>
  The Go file talks to a relational engine through SQL statements. The embedding gives
  each statement its relational meaning on two tables keyed by their primary keys, and
  each method of \<open>SQLDatastore\<close> becomes a function from the committed database to an
  error value and the committed database afterwards.

  What the engine decides and the Go code does not is a parameter:
  \<^item> the clock read by \<open>NOW()\<close> is the argument \<open>now\<close>;
  \<^item> every round trip to the engine (begin, prepare, exec, query, commit) may fail; the
    argument \<open>f\<close> says which ones do;
  \<^item> a transaction works on a copy \<open>tx\<close> of the database that replaces the committed
    database at a commit that succeeds, and is dropped otherwise (a transactional
    storage engine; a commit that reports an error has not committed);
  \<^item> keys are compared as strings, and a value handed to a statement is stored as it is:
    the widths of the \<open>VARCHAR\<close>, \<open>INT\<close> and \<open>DECIMAL\<close> columns are outside the
    model;
  \<^item> of several rows with the same smallest \<open>lastUpdated\<close>, \<open>ORDER BY ... LIMIT 1\<close>
    yields the one stored first.
\<close>

subsection \<open>The values of package crawling\<close>

text \<open>
  Modelled from the spec: the declarations of \<open>crawling.Node\<close> and
  \<open>crawling.Item\<close> are not in the file. The fields are the ones db/mysql.go reads
  and writes, with the types the spec's data model gives them; \<open>Listed\<close> and
  \<open>Banned\<close> are in the spec's profile and are never read by db/mysql.go. A timestamp is a
  number of seconds, a decimal with two fractional digits is its number of hundredths.
  Two names are taken twice in the source and are told apart here: the item's
  \<open>AverageRating\<close> is \<open>ItemAverageRating\<close>, and the column \<open>nsfw\<close> of the node
  table is \<open>node_nsfw\<close>.
\<close>

type_synonym datetime = int
type_synonym decimal = int

record ProfileStats =
  FollowerCount :: int
  FollowingCount :: int
  ListingCount :: int
  PostCount :: int
  RatingCount :: int
  AverageRating :: decimal

record Profile =
  Name :: string
  Handle :: string
  Location :: string
  Nsfw :: bool
  Vendor :: bool
  Moderator :: bool
  About :: string
  ShortDescription :: string
  Stats :: ProfileStats
  Listed :: bool
  Banned :: bool

record Node =
  ID :: string
  LastCrawled :: datetime
  Profile :: Profile

record Thumbnail =
  Tiny :: string
  Small :: string
  Medium :: string

record Price =
  Amount :: int
  CurrencyCode :: string

record Item =
  Hash :: string
  Slug :: string
  Title :: string
  Description :: string
  Thumbnail :: Thumbnail
  Language :: string
  Price :: Price
  Categories :: "string list"
  NSFW :: bool
  ContractType :: string
  ItemAverageRating :: decimal

text \<open>The zero value \<open>crawling.Node{}\<close> that the read operations fill in.\<close>

definition zero_Profile :: Profile where
  "zero_Profile =
     \<lparr>Name = [], Handle = [], Location = [], Nsfw = False, Vendor = False,
      Moderator = False, About = [], ShortDescription = [],
      Stats = \<lparr>FollowerCount = 0, FollowingCount = 0, ListingCount = 0, PostCount = 0,
               RatingCount = 0, AverageRating = 0\<rparr>,
      Listed = False, Banned = False\<rparr>"

subsection \<open>The two tables\<close>

text \<open>
  A table is the list of its rows in storage order, each row paired with its primary key
  (\<open>nodes.id\<close>, \<open>items.hash\<close>). A nullable column holds an option. Column
  \<open>lastUpdated\<close> is given a value by every insert of the file and is read into a Go
  time, so it is modelled without the null.
\<close>

record node_row =
  lastUpdated :: datetime
  name :: "string option"
  handle :: "string option"
  location :: "string option"
  node_nsfw :: "bool option"
  vendor :: "bool option"
  moderator :: "bool option"
  about :: "string option"
  shortDescription :: "string option"
  followerCount :: "int option"
  followingCount :: "int option"
  listingCount :: "int option"
  postCount :: "int option"
  ratingCount :: "int option"
  averageRating :: "decimal option"
  listed :: "bool option"
  banned :: "bool option"

record item_row =
  owner :: "string option"
  slug :: "string option"
  title :: "string option"
  tags :: "string option"
  description :: "string option"
  thumbnail :: "string option"
  language :: "string option"
  priceAmount :: "int option"
  priceCurrency :: "string option"
  categories :: "string option"
  nsfw :: "bool option"
  contractType :: "string option"
  rating :: "decimal option"

type_synonym 'r table = "(string \<times> 'r) list"

record database =
  nodes :: "node_row table"
  items :: "item_row table"

definition primary_key :: "'r table \<Rightarrow> bool" where
  "primary_key t = distinct (map fst t)"

text \<open>\<open>SELECT ... WHERE key = ?\<close>: the row of a key.\<close>

definition select_row :: "string \<Rightarrow> 'r table \<Rightarrow> 'r option" where
  "select_row k t = map_of t k"

text \<open>\<open>INSERT IGNORE\<close>: a row whose key is already there is dropped.\<close>

definition insert_ignore :: "string \<Rightarrow> 'r \<Rightarrow> 'r table \<Rightarrow> 'r table" where
  "insert_ignore k r t = (if k \<in> fst ` set t then t else t @ [(k, r)])"

text \<open>
  \<open>INSERT ... ON DUPLICATE KEY UPDATE\<close>: where the key is already there the
  assignments \<open>upd\<close> are applied to its row, otherwise the row \<open>r\<close> is added.
\<close>

definition insert_on_duplicate_key_update ::
    "string \<Rightarrow> 'r \<Rightarrow> ('r \<Rightarrow> 'r) \<Rightarrow> 'r table \<Rightarrow> 'r table" where
  "insert_on_duplicate_key_update k r upd t =
     (if k \<in> fst ` set t
      then map (\<lambda>(k', r'). if k' = k then (k', upd r') else (k', r')) t
      else t @ [(k, r)])"

text \<open>\<open>DELETE FROM ... WHERE p\<close>.\<close>

definition delete_where :: "('r \<Rightarrow> bool) \<Rightarrow> 'r table \<Rightarrow> 'r table" where
  "delete_where p t = filter (\<lambda>(k, r). \<not> p r) t"

subsection \<open>Errors and failing round trips\<close>

datatype error = ErrNoRows | ErrDriver

datatype step = Begin | Prepare nat | Exec nat | Query | Commit

type_synonym faults = "step \<Rightarrow> bool"

definition no_fault :: faults where
  "no_fault s = False"

subsection \<open>GetNextNode\<close>

text \<open>
  \<open>SELECT id, lastUpdated FROM nodes ORDER BY lastUpdated ASC LIMIT 1\<close>, scanned into
  the ID and LastCrawled of an empty node. Scanning an empty result is \<open>ErrNoRows\<close>.
\<close>

definition GetNextNode :: "faults \<Rightarrow> database \<Rightarrow> error + Node" where
  "GetNextNode f d =
     (if f Query then Inl ErrDriver
      else case sort_key (\<lambda>(k, r). lastUpdated r) (nodes d) of
             [] \<Rightarrow> Inl ErrNoRows
           | (k, r) # _ \<Rightarrow> Inr \<lparr>ID = k, LastCrawled = lastUpdated r, Profile = zero_Profile\<rparr>)"

subsection \<open>SaveNodeUninitialized\<close>

text \<open>
  The row that \<open>INSERT INTO nodes (id, lastUpdated)\<close> creates: the profile columns are
  null, \<open>listed\<close> and \<open>banned\<close> take their default 0.
\<close>

definition uninitialized_row :: "datetime \<Rightarrow> node_row" where
  "uninitialized_row ts =
     \<lparr>lastUpdated = ts, name = None, handle = None, location = None, node_nsfw = None,
      vendor = None, moderator = None, about = None, shortDescription = None,
      followerCount = None, followingCount = None, listingCount = None, postCount = None,
      ratingCount = None, averageRating = None, listed = Some False, banned = Some False\<rparr>"


subsection \<open>SaveNode\<close>

text \<open>The row of the \<open>VALUES\<close> list: sixteen columns, \<open>listed\<close> and \<open>banned\<close> by default.\<close>

definition profile_row :: "datetime \<Rightarrow> Profile \<Rightarrow> node_row" where
  "profile_row ts p =
     \<lparr>lastUpdated = ts, name = Some (Name p), handle = Some (Handle p),
      location = Some (Location p), node_nsfw = Some (Nsfw p), vendor = Some (Vendor p),
      moderator = Some (Moderator p), about = Some (About p),
      shortDescription = Some (ShortDescription p),
      followerCount = Some (FollowerCount (Stats p)),
      followingCount = Some (FollowingCount (Stats p)),
      listingCount = Some (ListingCount (Stats p)),
      postCount = Some (PostCount (Stats p)),
      ratingCount = Some (RatingCount (Stats p)),
      averageRating = Some (AverageRating (Stats p)),
      listed = Some False, banned = Some False\<rparr>"

text \<open>The assignments after \<open>ON DUPLICATE KEY UPDATE\<close>: fifteen columns.\<close>

definition update_profile :: "datetime \<Rightarrow> Profile \<Rightarrow> node_row \<Rightarrow> node_row" where
  "update_profile ts p r =
     r\<lparr>lastUpdated := ts, name := Some (Name p), handle := Some (Handle p),
       location := Some (Location p), node_nsfw := Some (Nsfw p), vendor := Some (Vendor p),
       moderator := Some (Moderator p), about := Some (About p),
       shortDescription := Some (ShortDescription p),
       followerCount := Some (FollowerCount (Stats p)),
       followingCount := Some (FollowingCount (Stats p)),
       listingCount := Some (ListingCount (Stats p)),
       postCount := Some (PostCount (Stats p)),
       ratingCount := Some (RatingCount (Stats p)),
       averageRating := Some (AverageRating (Stats p))\<rparr>"

definition SaveNode ::
    "faults \<Rightarrow> datetime \<Rightarrow> Node \<Rightarrow> database \<Rightarrow> error option \<times> database" where
  "SaveNode f now n d =
     (if f Begin then (Some ErrDriver, d)
      else if f (Prepare 0) then (Some ErrDriver, d)
      else if f (Exec 0) then (Some ErrDriver, d)
      else
        let tx = d\<lparr>nodes := insert_on_duplicate_key_update (ID n)
                               (profile_row now (Profile n))
                               (update_profile now (Profile n)) (nodes d)\<rparr>
        in if f Commit then (Some ErrDriver, d) else (None, tx))"

subsection \<open>AddUninitializedNodes\<close>




subsection \<open>GetNode\<close>

text \<open>\<open>SELECT id, lastUpdated FROM nodes WHERE id=?\<close>, scanned like GetNextNode's row.\<close>

definition GetNode :: "faults \<Rightarrow> string \<Rightarrow> database \<Rightarrow> error + Node" where
  "GetNode f nodeID d =
     (if f (Prepare 0) then Inl ErrDriver
      else if f Query then Inl ErrDriver
      else case select_row nodeID (nodes d) of
             None \<Rightarrow> Inl ErrNoRows
           | Some r \<Rightarrow> Inr \<lparr>ID = nodeID, LastCrawled = lastUpdated r, Profile = zero_Profile\<rparr>)"

subsection \<open>AddItemsForNode\<close>

text \<open>\<open>strings.Join\<close>.\<close>

fun Join :: "string list \<Rightarrow> string \<Rightarrow> string" where
  "Join [] sep = []"
| "Join [x] sep = x"
| "Join (x # y # ys) sep = x @ sep @ Join (y # ys) sep"

definition thumbnail_field :: "Thumbnail \<Rightarrow> string" where
  "thumbnail_field t = Tiny t @ '','' @ Small t @ '','' @ Medium t"

text \<open>The fourteen values of the insert; \<open>tags\<close> is the empty string.\<close>

definition item_row_of :: "string \<Rightarrow> Item \<Rightarrow> item_row" where
  "item_row_of o' i =
     \<lparr>owner = Some o', slug = Some (Slug i), title = Some (Title i), tags = Some [],
      description = Some (Description i), thumbnail = Some (thumbnail_field (Thumbnail i)),
      language = Some (Language i), priceAmount = Some (Amount (Price i)),
      priceCurrency = Some (CurrencyCode (Price i)),
      categories = Some (Join (Categories i) '',''), nsfw = Some (NSFW i),
      contractType = Some (ContractType i), rating = Some (ItemAverageRating i)\<rparr>"

text \<open>The twelve assignments on a duplicate hash; \<open>owner\<close> is not among them.\<close>

definition update_item :: "Item \<Rightarrow> item_row \<Rightarrow> item_row" where
  "update_item i r =
     r\<lparr>slug := Some (Slug i), title := Some (Title i), tags := Some [],
       description := Some (Description i),
       thumbnail := Some (thumbnail_field (Thumbnail i)),
       language := Some (Language i), priceAmount := Some (Amount (Price i)),
       priceCurrency := Some (CurrencyCode (Price i)),
       categories := Some (Join (Categories i) '',''), nsfw := Some (NSFW i),
       contractType := Some (ContractType i), rating := Some (ItemAverageRating i)\<rparr>"

definition upsert_item :: "string \<Rightarrow> Item \<Rightarrow> item_row table \<Rightarrow> item_row table" where
  "upsert_item o' i t =
     insert_on_duplicate_key_update (Hash i) (item_row_of o' i) (update_item i) t"

text \<open>
  The loop over the items. Round trip 0 is the delete, so the loop starts at 1.
\<close>

fun add_items :: "faults \<Rightarrow> nat \<Rightarrow> string \<Rightarrow> Item list \<Rightarrow> item_row table \<Rightarrow> error + item_row table" where
  "add_items f k o' [] tx = Inr tx"
| "add_items f k o' (i # is) tx =
     (if f (Prepare k) then Inl ErrDriver
      else if f (Exec k) then Inl ErrDriver
      else add_items f (Suc k) o' is (upsert_item o' i tx))"

text \<open>
  Every early return leaves the transaction uncommitted, and the deferred \<open>cancel()\<close>
  of the transaction's context rolls it back: the committed database is the one before.
  (The three writers of the node table return early without a rollback; their
  transaction stays open and is never committed.)
\<close>

definition AddItemsForNode ::
    "faults \<Rightarrow> string \<Rightarrow> Item list \<Rightarrow> database \<Rightarrow> error option \<times> database" where
  "AddItemsForNode f o' its d =
     (if f Begin then (Some ErrDriver, d)
      else if f (Prepare 0) then (Some ErrDriver, d)
      else if f (Exec 0) then (Some ErrDriver, d)
      else case add_items f 1 o' its (delete_where (\<lambda>r. owner r = Some o') (items d)) of
             Inl e \<Rightarrow> (Some e, d)
           | Inr t \<Rightarrow> if f Commit then (Some ErrDriver, d) else (None, d\<lparr>items := t\<rparr>))"

text \<open>What a run without an error has committed to the items table.\<close>

definition replace_items :: "string \<Rightarrow> Item list \<Rightarrow> item_row table \<Rightarrow> item_row table" where
  "replace_items o' its t =
     foldl (\<lambda>tx i. upsert_item o' i tx) (delete_where (\<lambda>r. owner r = Some o') t) its"

subsection \<open>Notions used to state the properties\<close>

text \<open>The last item of a batch that carries a given hash.\<close>

definition last_item :: "string \<Rightarrow> Item list \<Rightarrow> Item option" where
  "last_item h its = find (\<lambda>i. Hash i = h) (rev its)"

text \<open>
  How a reader takes a stored \<open>categories\<close> string apart again: \<open>strings.Split(s, ",")\<close>.
  db/mysql.go has no reader of the items table; this function only states what
  "reconstructable" means.
\<close>

fun split_commas :: "string \<Rightarrow> string list" where
  "split_commas [] = [[]]"
| "split_commas (c # cs) =
     (if c = CHR '','' then [] # split_commas cs
      else case split_commas cs of
             [] \<Rightarrow> [[c]]
           | w # ws \<Rightarrow> (c # w) # ws)"

subsection \<open>Example values\<close>

definition empty_database :: database where
  "empty_database = \<lparr>nodes = [], items = []\<rparr>"

definition example_node :: Node where
  "example_node =
     \<lparr>ID = ''A'', LastCrawled = 0,
      Profile = zero_Profile\<lparr>Name := ''X'', Stats := (Stats zero_Profile)\<lparr>FollowerCount := 5\<rparr>\<rparr>\<rparr>"

definition banned_database :: database where
  "banned_database =
     \<lparr>nodes = [(''A'', (uninitialized_row 3)\<lparr>banned := Some True\<rparr>)], items = []\<rparr>"

definition example_item :: "string \<Rightarrow> string list \<Rightarrow> Item" where
  "example_item h cs =
     \<lparr>Hash = h, Slug = ''s'', Title = ''t'', Description = [],
      Thumbnail = \<lparr>Tiny = [], Small = [], Medium = []\<rparr>, Language = ''en'',
      Price = \<lparr>Amount = 1, CurrencyCode = ''USD''\<rparr>, Categories = cs, NSFW = False,
      ContractType = ''PHYSICAL_GOOD'', ItemAverageRating = 0\<rparr>"

definition example_catalog :: database where
  "example_catalog =
     \<lparr>nodes = [],
      items = [(''h0'', item_row_of ''B'' (example_item ''h0'' [])),
               (''h9'', item_row_of ''A'' (example_item ''h9'' []))]\<rparr>"

section \<open>Facts about the statements\<close>

lemma key_in_table: "k \<in> fst ` set t \<longleftrightarrow> map_of t k \<noteq> None"
  by (simp add: map_of_eq_None_iff)

lemma map_of_map_upd:
  "map_of (map (\<lambda>(k', r'). if k' = k then (k', u r') else (k', r')) t) k' =
     (if k' = k then map_option u (map_of t k) else map_of t k')"
  by (induction t) auto

lemma map_of_snoc:
  "map_of (t @ [(k, r)]) k' =
     (case map_of t k' of None \<Rightarrow> if k' = k then Some r else None | Some v \<Rightarrow> Some v)"
  by (induction t) auto

lemma select_upsert:
  "select_row k' (insert_on_duplicate_key_update k r u t) =
     (if k' = k then (case select_row k t of None \<Rightarrow> Some r | Some r0 \<Rightarrow> Some (u r0))
      else select_row k' t)"
  by (auto simp: select_row_def insert_on_duplicate_key_update_def key_in_table map_of_map_upd
      map_of_snoc simp del: map_of_append split: option.splits)


lemma map_fst_upd:
  "map (fst \<circ> (\<lambda>(k', r'). if k' = k then (k', u r') else (k', r'))) t = map fst t"
  by (induction t) auto

text \<open>Every statement keeps the primary key unique.\<close>

lemma primary_key_upsert:
  "primary_key t \<Longrightarrow> primary_key (insert_on_duplicate_key_update k r u t)"
  by (simp add: primary_key_def insert_on_duplicate_key_update_def map_fst_upd)

lemma primary_key_insert_ignore: "primary_key t \<Longrightarrow> primary_key (insert_ignore k r t)"
  by (auto simp: primary_key_def insert_ignore_def)

lemma primary_key_delete_where: "primary_key t \<Longrightarrow> primary_key (delete_where p t)"
  by (simp add: primary_key_def delete_where_def distinct_map_filter)

section \<open>Scheduling: GetNextNode\<close>

lemma oldest_first:
  assumes "sort_key g t = x # xs"
  shows "x \<in> set t \<and> (\<forall>y\<in>set t. g x \<le> g y)"
proof -
  have s: "sorted (map g (sort_key g t))" by simp
  have m: "set (sort_key g t) = set t" by simp
  from s assms have "\<forall>y\<in>set xs. g x \<le> g y" by simp
  with m assms show ?thesis by auto
qed

text \<open>
  Claim C6. With no failing round trip, GetNextNode on an empty node table is the error
  \<open>ErrNoRows\<close>; on a table with rows it returns the ID and timestamp of a stored row
  whose \<open>lastUpdated\<close> is at most that of every stored row.
\<close>

theorem GetNextNode_oldest:
  "(nodes d = [] \<longrightarrow> GetNextNode no_fault d = Inl ErrNoRows) \<and>
   (nodes d \<noteq> [] \<longrightarrow>
      (\<exists>n r. GetNextNode no_fault d = Inr n \<and> (ID n, r) \<in> set (nodes d) \<and>
             LastCrawled n = lastUpdated r \<and>
             (\<forall>(k, r') \<in> set (nodes d). LastCrawled n \<le> lastUpdated r')))"
proof (intro conjI impI)
  assume "nodes d = []"
  then show "GetNextNode no_fault d = Inl ErrNoRows"
    by (simp add: GetNextNode_def no_fault_def)
next
  assume ne: "nodes d \<noteq> []"
  let ?g = "\<lambda>(k, r). lastUpdated (r::node_row)"
  have "sort_key ?g (nodes d) \<noteq> []"
    using ne by (metis length_sort list.size(3) length_0_conv)
  then obtain k r xs where srt: "sort_key ?g (nodes d) = (k, r) # xs"
    by (cases "sort_key ?g (nodes d)") auto
  from oldest_first[OF srt] have "(k, r) \<in> set (nodes d)"
    and "\<forall>y\<in>set (nodes d). lastUpdated r \<le> ?g y" by auto
  with srt show "\<exists>n r. GetNextNode no_fault d = Inr n \<and> (ID n, r) \<in> set (nodes d) \<and>
             LastCrawled n = lastUpdated r \<and>
             (\<forall>(k, r') \<in> set (nodes d). LastCrawled n \<le> lastUpdated r')"
    by (auto simp: GetNextNode_def no_fault_def)
qed

theorem GetNextNode_oldest_witness:
  "GetNextNode no_fault \<lparr>nodes = [], items = []\<rparr> = Inl ErrNoRows \<and>
   (\<exists>n r. GetNextNode no_fault
             \<lparr>nodes = [(''A'', uninitialized_row 30), (''B'', uninitialized_row 10)],
              items = []\<rparr> = Inr n \<and>
          (ID n, r) \<in> {(''A'', uninitialized_row 30), (''B'', uninitialized_row 10)} \<and>
          LastCrawled n = lastUpdated r \<and> LastCrawled n \<le> 30 \<and> LastCrawled n \<le> 10)"
  using GetNextNode_oldest [of "\<lparr>nodes = [], items = []\<rparr>"]
    GetNextNode_oldest [of "\<lparr>nodes = [(''A'', uninitialized_row 30), (''B'', uninitialized_row 10)],
              items = []\<rparr>"]
  by (simp add: uninitialized_row_def)

section \<open>Writing one node: SaveNodeUninitialized, SaveNode, GetNode\<close>




lemma SaveNode_success:
  assumes "SaveNode f now n d = (None, d')"
  shows "d' = d\<lparr>nodes := insert_on_duplicate_key_update (ID n) (profile_row now (Profile n))
                               (update_profile now (Profile n)) (nodes d)\<rparr>"
  using assms by (auto simp: SaveNode_def Let_def split: if_splits)

text \<open>
  Claim C1, as the code has it. After a SaveNode that returns no error, GetNode of the
  node's ID returns a node with that ID and the time of the save as LastCrawled; its
  profile is the zero value, whatever was saved, because the query reads the columns
  \<open>id\<close> and \<open>lastUpdated\<close> only.
\<close>

theorem GetNode_after_SaveNode:
  assumes "SaveNode f now n d = (None, d')"
  shows "GetNode no_fault (ID n) d' =
           Inr \<lparr>ID = ID n, LastCrawled = now, Profile = zero_Profile\<rparr>"
  unfolding SaveNode_success [OF assms]
  by (simp add: GetNode_def no_fault_def select_upsert profile_row_def update_profile_def
      split: option.splits)

theorem GetNode_after_SaveNode_witness:
  "SaveNode no_fault 100 example_node empty_database =
     (None, \<lparr>nodes = [(''A'', profile_row 100 (Profile example_node))], items = []\<rparr>) \<and>
   GetNode no_fault ''A'' \<lparr>nodes = [(''A'', profile_row 100 (Profile example_node))], items = []\<rparr> =
     Inr \<lparr>ID = ''A'', LastCrawled = 100, Profile = zero_Profile\<rparr>"
proof -
  have run: "SaveNode no_fault 100 example_node empty_database =
     (None, \<lparr>nodes = [(''A'', profile_row 100 (Profile example_node))], items = []\<rparr>)"
    by (simp add: SaveNode_def no_fault_def insert_on_duplicate_key_update_def
        empty_database_def example_node_def)
  from GetNode_after_SaveNode [OF run] run show ?thesis
    by (simp add: example_node_def)
qed

text \<open>
  Claim C1 as stated fails: saving node A with name X and follower count 5 into the empty
  database succeeds, and GetNode of A then returns a node with the empty name and
  follower count 0.
\<close>

theorem GetNode_profile_counterexample:
  "fst (SaveNode no_fault 100 example_node empty_database) = None \<and>
   Name (Profile example_node) = ''X'' \<and>
   FollowerCount (Stats (Profile example_node)) = 5 \<and>
   \<not> isl (GetNode no_fault ''A'' (snd (SaveNode no_fault 100 example_node empty_database))) \<and>
   Name (Profile (projr (GetNode no_fault ''A''
      (snd (SaveNode no_fault 100 example_node empty_database))))) = [] \<and>
   FollowerCount (Stats (Profile (projr (GetNode no_fault ''A''
      (snd (SaveNode no_fault 100 example_node empty_database)))))) = 0"
  by (simp add: SaveNode_def GetNode_def no_fault_def insert_on_duplicate_key_update_def
      empty_database_def example_node_def select_row_def zero_Profile_def)

text \<open>
  Claim C3, as the code has it. After a SaveNode that returns no error, the row of the
  node's ID has \<open>lastUpdated\<close> at the current time and the node's values in the columns
  name, handle, location, about, shortDescription, nsfw, vendor, moderator, the five
  counters and averageRating, whatever the row held before. The columns \<open>listed\<close> and
  \<open>banned\<close> are not written: they keep the values of the row stored before, and are
  false in a new row.
\<close>

theorem SaveNode_overwrites:
  assumes "SaveNode f now n d = (None, d')"
  shows "\<exists>r'. select_row (ID n) (nodes d') = Some r' \<and>
           lastUpdated r' = now \<and>
           name r' = Some (Name (Profile n)) \<and>
           handle r' = Some (Handle (Profile n)) \<and>
           location r' = Some (Location (Profile n)) \<and>
           about r' = Some (About (Profile n)) \<and>
           shortDescription r' = Some (ShortDescription (Profile n)) \<and>
           node_nsfw r' = Some (Nsfw (Profile n)) \<and>
           vendor r' = Some (Vendor (Profile n)) \<and>
           moderator r' = Some (Moderator (Profile n)) \<and>
           followerCount r' = Some (FollowerCount (Stats (Profile n))) \<and>
           followingCount r' = Some (FollowingCount (Stats (Profile n))) \<and>
           listingCount r' = Some (ListingCount (Stats (Profile n))) \<and>
           postCount r' = Some (PostCount (Stats (Profile n))) \<and>
           ratingCount r' = Some (RatingCount (Stats (Profile n))) \<and>
           averageRating r' = Some (AverageRating (Stats (Profile n))) \<and>
           listed r' = (case select_row (ID n) (nodes d) of
                          None \<Rightarrow> Some False | Some r \<Rightarrow> listed r) \<and>
           banned r' = (case select_row (ID n) (nodes d) of
                          None \<Rightarrow> Some False | Some r \<Rightarrow> banned r)"
  unfolding SaveNode_success [OF assms]
  by (simp add: select_upsert profile_row_def update_profile_def split: option.splits)

theorem SaveNode_overwrites_witness:
  "SaveNode no_fault 100 example_node banned_database =
     (None, \<lparr>nodes = [(''A'', (profile_row 100 (Profile example_node))\<lparr>banned := Some True\<rparr>)],
             items = []\<rparr>) \<and>
   (\<exists>r'. select_row ''A'' [(''A'', (profile_row 100 (Profile example_node))\<lparr>banned := Some True\<rparr>)]
            = Some r' \<and>
          lastUpdated r' = 100 \<and> name r' = Some ''X'' \<and> followerCount r' = Some 5 \<and>
          listed r' = Some False \<and> banned r' = Some True)"
proof -
  have run: "SaveNode no_fault 100 example_node banned_database =
     (None, \<lparr>nodes = [(''A'', (profile_row 100 (Profile example_node))\<lparr>banned := Some True\<rparr>)],
             items = []\<rparr>)"
    by (simp add: SaveNode_def no_fault_def insert_on_duplicate_key_update_def
        banned_database_def example_node_def update_profile_def profile_row_def
        uninitialized_row_def)
  from SaveNode_overwrites [OF run] run show ?thesis
    by (simp add: example_node_def zero_Profile_def banned_database_def select_row_def
        uninitialized_row_def)
qed

text \<open>
  Claim C3 as stated fails on \<open>banned\<close>: node A is stored with \<open>banned\<close> set, a node A
  whose profile is not banned is saved without an error, and the stored \<open>banned\<close> is
  still set.
\<close>

theorem SaveNode_banned_counterexample:
  "fst (SaveNode no_fault 100 example_node banned_database) = None \<and>
   map_option banned
     (select_row ''A'' (nodes (snd (SaveNode no_fault 100 example_node banned_database)))) =
     Some (Some True) \<and>
   Banned (Profile example_node) = False"
  by (simp add: SaveNode_def no_fault_def insert_on_duplicate_key_update_def
      banned_database_def example_node_def update_profile_def uninitialized_row_def
      select_row_def zero_Profile_def)

section \<open>Enqueueing a batch: AddUninitializedNodes\<close>




section \<open>Replacing a catalog: AddItemsForNode\<close>

subsection \<open>The upserts of the loop\<close>

lemma last_item_Nil [simp]: "last_item h [] = None"
  by (simp add: last_item_def)

lemma last_item_snoc [simp]:
  "last_item h (its @ [i]) = (if Hash i = h then Some i else last_item h its)"
  by (simp add: last_item_def)

lemma find_Some_member: "find P xs = Some x \<Longrightarrow> x \<in> set xs \<and> P x"
  by (induction xs) (auto split: if_splits)

lemma last_item_Some: "last_item h its = Some i \<Longrightarrow> i \<in> set its \<and> Hash i = h"
  using find_Some_member [of "\<lambda>i. Hash i = h" "rev its" i] by (simp add: last_item_def)

lemma last_item_None: "last_item h its = None \<longleftrightarrow> h \<notin> Hash ` set its"
  by (auto simp: last_item_def find_None_iff)

lemma update_item_twice [simp]: "update_item i (update_item j r) = update_item i r"
  by (simp add: update_item_def)

lemma update_item_new [simp]: "update_item i (item_row_of o' j) = item_row_of o' i"
  by (simp add: update_item_def item_row_of_def)

lemma owner_update_item [simp]: "owner (update_item i r) = owner r"
  by (simp add: update_item_def)

lemma owner_item_row_of [simp]: "owner (item_row_of o' i) = Some o'"
  by (simp add: item_row_of_def)

lemma add_items_success:
  "add_items f k o' its t = Inr t' \<Longrightarrow> t' = foldl (\<lambda>tx i. upsert_item o' i tx) t its"
  by (induction its arbitrary: k t) (auto split: if_splits)

lemma AddItemsForNode_success:
  assumes "AddItemsForNode f o' its d = (None, d')"
  shows "d' = d\<lparr>items := replace_items o' its (items d)\<rparr>"
proof -
  from assms obtain t where
    t: "add_items f 1 o' its (delete_where (\<lambda>r. owner r = Some o') (items d)) = Inr t"
    and d': "d' = d\<lparr>items := t\<rparr>"
    by (auto simp: AddItemsForNode_def split: if_splits sum.splits)
  from add_items_success [OF t] d' show ?thesis by (simp add: replace_items_def)
qed

text \<open>The row of a hash after the loop: the last item with the hash decides.\<close>

lemma select_upsert_items:
  "select_row h (foldl (\<lambda>tx i. upsert_item o' i tx) t its) =
     (case last_item h its of
        None \<Rightarrow> select_row h t
      | Some i \<Rightarrow> Some (case select_row h t of
                          None \<Rightarrow> item_row_of o' i
                        | Some r \<Rightarrow> update_item i r))"
proof (induction its rule: rev_induct)
  case Nil
  then show ?case by simp
next
  case (snoc j its)
  let ?t1 = "foldl (\<lambda>tx i. upsert_item o' i tx) t its"
  have step: "select_row h (upsert_item o' j ?t1) =
      (if h = Hash j
       then (case select_row h ?t1 of
               None \<Rightarrow> Some (item_row_of o' j)
             | Some r0 \<Rightarrow> Some (update_item j r0))
       else select_row h ?t1)"
    unfolding upsert_item_def by (simp add: select_upsert)
  show ?case
  proof (cases "h = Hash j")
    case True
    with step snoc.IH show ?thesis by (simp split: option.splits)
  next
    case False
    with step snoc.IH show ?thesis by simp
  qed
qed

text \<open>A row that is in the table when the loop starts is still there, updated or not.\<close>

lemma untouched_upsert_items:
  "(h, r) \<in> set t \<Longrightarrow>
   (h, case last_item h its of None \<Rightarrow> r | Some i \<Rightarrow> update_item i r)
     \<in> set (foldl (\<lambda>tx i. upsert_item o' i tx) t its)"
proof (induction its rule: rev_induct)
  case Nil
  then show ?case by simp
next
  case (snoc j its)
  let ?t1 = "foldl (\<lambda>tx i. upsert_item o' i tx) t its"
  let ?r1 = "case last_item h its of None \<Rightarrow> r | Some i \<Rightarrow> update_item i r"
  from snoc have in1: "(h, ?r1) \<in> set ?t1" by simp
  have "(h, if h = Hash j then update_item j ?r1 else ?r1) \<in> set (upsert_item o' j ?t1)"
    using in1 unfolding upsert_item_def insert_on_duplicate_key_update_def
    by (force simp: image_iff)
  moreover have "(if h = Hash j then update_item j ?r1 else ?r1) =
      (case last_item h (its @ [j]) of None \<Rightarrow> r | Some i \<Rightarrow> update_item i r)"
    by (simp split: option.splits)
  ultimately show ?case by simp
qed

lemma kept_by_replace_items:
  assumes "(h, r) \<in> set t" "owner r \<noteq> Some o'"
  shows "(h, case last_item h its of None \<Rightarrow> r | Some i \<Rightarrow> update_item i r)
           \<in> set (replace_items o' its t)"
  unfolding replace_items_def
  by (rule untouched_upsert_items) (use assms in \<open>simp add: delete_where_def\<close>)

subsection \<open>With a unique primary key\<close>

lemma primary_key_member:
  "primary_key t \<Longrightarrow> (k, r) \<in> set t \<longleftrightarrow> select_row k t = Some r"
  by (simp add: primary_key_def select_row_def)

lemma primary_key_upsert_items:
  "primary_key t \<Longrightarrow> primary_key (foldl (\<lambda>tx i. upsert_item o' i tx) t its)"
  by (induction its rule: rev_induct) (simp_all add: upsert_item_def primary_key_upsert)

lemma primary_key_replace_items:
  "primary_key t \<Longrightarrow> primary_key (replace_items o' its t)"
  by (simp add: replace_items_def primary_key_upsert_items primary_key_delete_where)

lemma select_delete_where:
  assumes "primary_key t"
  shows "select_row h (delete_where p t) =
           (case select_row h t of None \<Rightarrow> None | Some r \<Rightarrow> if p r then None else Some r)"
proof (cases "select_row h (delete_where p t)")
  case None
  have "\<And>r. select_row h t = Some r \<Longrightarrow> p r"
  proof (rule ccontr)
    fix r assume "select_row h t = Some r" "\<not> p r"
    then have "(h, r) \<in> set (delete_where p t)"
      using assms by (auto simp: primary_key_member [symmetric] delete_where_def)
    then have "select_row h (delete_where p t) = Some r"
      using primary_key_delete_where [OF assms] by (simp add: primary_key_member)
    with None show False by simp
  qed
  with None show ?thesis by (auto split: option.splits)
next
  case (Some r)
  then have "(h, r) \<in> set (delete_where p t)"
    using primary_key_delete_where [OF assms] by (simp add: primary_key_member)
  then have "(h, r) \<in> set t" "\<not> p r" by (auto simp: delete_where_def)
  with assms Some show ?thesis by (simp add: primary_key_member)
qed

lemma select_replace_items:
  assumes "primary_key t"
  shows "select_row h (replace_items o' its t) =
     (case last_item h its of
        None \<Rightarrow> (case select_row h t of
                   None \<Rightarrow> None
                 | Some r \<Rightarrow> if owner r = Some o' then None else Some r)
      | Some i \<Rightarrow> Some (case select_row h t of
                          None \<Rightarrow> item_row_of o' i
                        | Some r \<Rightarrow> if owner r = Some o' then item_row_of o' i
                                    else update_item i r))"
  by (simp add: replace_items_def select_upsert_items select_delete_where [OF assms]
      split: option.splits)

lemma owned_rows_replace_items:
  assumes pk: "primary_key t"
    and nf: "\<forall>(h, r) \<in> set t. owner r \<noteq> Some o' \<longrightarrow> h \<notin> Hash ` set its"
  shows "{(h, r) \<in> set (replace_items o' its t). owner r = Some o'} =
         {(Hash i, item_row_of o' i) | i. last_item (Hash i) its = Some i}"
proof -
  have mem: "\<And>h r. (h, r) \<in> set (replace_items o' its t) \<longleftrightarrow>
      select_row h (replace_items o' its t) = Some r"
    using primary_key_member [OF primary_key_replace_items [OF pk]] by blast
  have foreign: "\<And>h r i. select_row h t = Some r \<Longrightarrow> owner r \<noteq> Some o' \<Longrightarrow>
      last_item h its = Some i \<Longrightarrow> False"
  proof -
    fix h r i assume "select_row h t = Some r" "owner r \<noteq> Some o'" "last_item h its = Some i"
    then have "(h, r) \<in> set t" "h \<in> Hash ` set its"
      using pk last_item_Some by (auto simp: primary_key_member)
    with nf \<open>owner r \<noteq> Some o'\<close> show False by auto
  qed
  show ?thesis
  proof (intro set_eqI iffI; clarsimp simp: mem select_replace_items [OF pk])
    fix h r
    assume "(case last_item h its of
               None \<Rightarrow> (case select_row h t of None \<Rightarrow> None
                         | Some r \<Rightarrow> if owner r = Some o' then None else Some r)
             | Some i \<Rightarrow> Some (case select_row h t of None \<Rightarrow> item_row_of o' i
                                | Some r \<Rightarrow> if owner r = Some o' then item_row_of o' i
                                            else update_item i r)) = Some r"
      and "owner r = Some o'"
    then show "\<exists>i. h = Hash i \<and> r = item_row_of o' i \<and> last_item (Hash i) its = Some i"
      using foreign [of h] last_item_Some [of h its]
      by (auto split: option.splits if_splits)
  next
    fix i
    assume "last_item (Hash i) its = Some i"
    then show "(case select_row (Hash i) t of None \<Rightarrow> item_row_of o' i
                | Some r \<Rightarrow> if owner r = Some o' then item_row_of o' i else update_item i r) =
               item_row_of o' i"
      using foreign [of "Hash i" _ i] by (auto split: option.splits)
  qed
qed

lemma foreign_rows_replace_items:
  assumes pk: "primary_key t"
    and "(h, r) \<in> set (replace_items o' its t)" and "owner r \<noteq> Some o'"
  shows "\<exists>r0. (h, r0) \<in> set t \<and> owner r0 \<noteq> Some o'"
proof -
  from assms have "select_row h (replace_items o' its t) = Some r"
    using primary_key_member [OF primary_key_replace_items [OF pk]] by blast
  with assms(3) obtain r0 where "select_row h t = Some r0" "owner r0 \<noteq> Some o'"
    by (auto simp: select_replace_items [OF pk] split: option.splits if_splits)
  with pk show ?thesis by (auto simp: primary_key_member)
qed

subsection \<open>Splitting a joined list\<close>

lemma split_commas_word:
  "CHR '','' \<notin> set x \<Longrightarrow> split_commas (x @ CHR '','' # rest) = x # split_commas rest"
  by (induction x) auto

lemma split_commas_single: "CHR '','' \<notin> set x \<Longrightarrow> split_commas x = [x]"
  by (induction x) auto

lemma split_commas_Join:
  "xs \<noteq> [] \<Longrightarrow> \<forall>x\<in>set xs. CHR '','' \<notin> set x \<Longrightarrow> split_commas (Join xs '','') = xs"
proof (induction xs "'',''" rule: Join.induct)
  case 1
  then show ?case by simp
next
  case (2 x)
  then show ?case by (simp add: split_commas_single)
next
  case (3 x y ys)
  then show ?case by (simp add: split_commas_word)
qed

lemmas run_simps = AddItemsForNode_def no_fault_def delete_where_def upsert_item_def
  insert_on_duplicate_key_update_def item_row_of_def update_item_def example_item_def
  thumbnail_field_def example_catalog_def

subsection \<open>Full replacement\<close>

text \<open>
  Claim C2, as the code has it. Let the items table have a unique primary key. After an
  AddItemsForNode that returns no error, on a table where no hash of the given items is
  the key of a row of another owner, the stored rows whose owner column is the given
  owner are exactly the rows of the given items (of several given items with one hash,
  the last one). An earlier AddItemsForNode for the same owner, with any items, leaves
  nothing behind: after the second call the owner's rows are exactly those of the second
  batch.
\<close>

theorem AddItemsForNode_full_replacement:
  assumes pk: "primary_key (items d)"
  shows "(AddItemsForNode f o' its d = (None, d') \<and>
          (\<forall>(h, r) \<in> set (items d). owner r \<noteq> Some o' \<longrightarrow> h \<notin> Hash ` set its) \<longrightarrow>
            {(h, r) \<in> set (items d'). owner r = Some o'} =
            {(Hash i, item_row_of o' i) | i. last_item (Hash i) its = Some i}) \<and>
         (AddItemsForNode f1 o' its1 d = (None, d1) \<and>
          AddItemsForNode f2 o' its2 d1 = (None, d2) \<and>
          (\<forall>(h, r) \<in> set (items d). owner r \<noteq> Some o' \<longrightarrow> h \<notin> Hash ` set its2) \<longrightarrow>
            {(h, r) \<in> set (items d2). owner r = Some o'} =
            {(Hash i, item_row_of o' i) | i. last_item (Hash i) its2 = Some i})"
proof (intro conjI impI; elim conjE)
  assume run: "AddItemsForNode f o' its d = (None, d')"
    and nf: "\<forall>(h, r) \<in> set (items d). owner r \<noteq> Some o' \<longrightarrow> h \<notin> Hash ` set its"
  show "{(h, r) \<in> set (items d'). owner r = Some o'} =
            {(Hash i, item_row_of o' i) | i. last_item (Hash i) its = Some i}"
    using owned_rows_replace_items [OF pk nf]
    by (simp add: AddItemsForNode_success [OF run])
next
  assume one: "AddItemsForNode f1 o' its1 d = (None, d1)"
    and two: "AddItemsForNode f2 o' its2 d1 = (None, d2)"
    and nf: "\<forall>(h, r) \<in> set (items d). owner r \<noteq> Some o' \<longrightarrow> h \<notin> Hash ` set its2"
  have d1: "items d1 = replace_items o' its1 (items d)"
    by (simp add: AddItemsForNode_success [OF one])
  have pk1: "primary_key (items d1)"
    by (simp add: d1 primary_key_replace_items [OF pk])
  have nf1: "\<forall>(h, r) \<in> set (items d1). owner r \<noteq> Some o' \<longrightarrow> h \<notin> Hash ` set its2"
  proof -
    have "h \<notin> Hash ` set its2" if "(h, r) \<in> set (items d1)" "owner r \<noteq> Some o'" for h r
    proof -
      from that obtain r0 where "(h, r0) \<in> set (items d)" "owner r0 \<noteq> Some o'"
        using foreign_rows_replace_items [OF pk, of h r o' its1] by (auto simp: d1)
      with nf show ?thesis by auto
    qed
    then show ?thesis by auto
  qed
  show "{(h, r) \<in> set (items d2). owner r = Some o'} =
            {(Hash i, item_row_of o' i) | i. last_item (Hash i) its2 = Some i}"
    using owned_rows_replace_items [OF pk1 nf1]
    by (simp add: AddItemsForNode_success [OF two])
qed

theorem AddItemsForNode_full_replacement_witness:
  "primary_key (items example_catalog) \<and>
   AddItemsForNode no_fault ''A'' [example_item ''h1'' [''a'', ''b'']] example_catalog =
     (None, \<lparr>nodes = [],
             items = [(''h0'', item_row_of ''B'' (example_item ''h0'' [])),
                      (''h1'', item_row_of ''A'' (example_item ''h1'' [''a'', ''b'']))]\<rparr>) \<and>
   AddItemsForNode no_fault ''A'' [example_item ''h2'' []]
     \<lparr>nodes = [],
      items = [(''h0'', item_row_of ''B'' (example_item ''h0'' [])),
               (''h1'', item_row_of ''A'' (example_item ''h1'' [''a'', ''b'']))]\<rparr> =
     (None, \<lparr>nodes = [],
             items = [(''h0'', item_row_of ''B'' (example_item ''h0'' [])),
                      (''h2'', item_row_of ''A'' (example_item ''h2'' []))]\<rparr>) \<and>
   {(h, r) \<in> {(''h0'', item_row_of ''B'' (example_item ''h0'' [])),
               (''h1'', item_row_of ''A'' (example_item ''h1'' [''a'', ''b'']))}.
      owner r = Some ''A''} =
     {(Hash i, item_row_of ''A'' i) | i.
        last_item (Hash i) [example_item ''h1'' [''a'', ''b'']] = Some i} \<and>
   {(h, r) \<in> {(''h0'', item_row_of ''B'' (example_item ''h0'' [])),
               (''h2'', item_row_of ''A'' (example_item ''h2'' []))}.
      owner r = Some ''A''} =
     {(Hash i, item_row_of ''A'' i) | i. last_item (Hash i) [example_item ''h2'' []] = Some i}"
proof -
  let ?d1 = "\<lparr>nodes = [],
             items = [(''h0'', item_row_of ''B'' (example_item ''h0'' [])),
                      (''h1'', item_row_of ''A'' (example_item ''h1'' [''a'', ''b'']))]\<rparr>"
  let ?d2 = "\<lparr>nodes = [],
             items = [(''h0'', item_row_of ''B'' (example_item ''h0'' [])),
                      (''h2'', item_row_of ''A'' (example_item ''h2'' []))]\<rparr>"
  have pk: "primary_key (items example_catalog)"
    by (simp add: primary_key_def example_catalog_def)
  have one: "AddItemsForNode no_fault ''A'' [example_item ''h1'' [''a'', ''b'']] example_catalog
      = (None, ?d1)"
    by (simp add: run_simps)
  have two: "AddItemsForNode no_fault ''A'' [example_item ''h2'' []] ?d1 = (None, ?d2)"
    by (simp add: run_simps)
  have nf1: "\<forall>(h, r) \<in> set (items example_catalog).
      owner r \<noteq> Some ''A'' \<longrightarrow> h \<notin> Hash ` set [example_item ''h1'' [''a'', ''b'']]"
    by (simp add: example_catalog_def example_item_def item_row_of_def)
  have nf2: "\<forall>(h, r) \<in> set (items example_catalog).
      owner r \<noteq> Some ''A'' \<longrightarrow> h \<notin> Hash ` set [example_item ''h2'' []]"
    by (simp add: example_catalog_def example_item_def item_row_of_def)
  from AddItemsForNode_full_replacement [OF pk, of no_fault "''A''"
      "[example_item ''h1'' [''a'', ''b'']]" ?d1 no_fault "[example_item ''h1'' [''a'', ''b'']]"
      ?d1 no_fault "[example_item ''h2'' []]" ?d2] pk one two nf1 nf2
  show ?thesis by simp
qed

text \<open>
  Claim C2 as stated fails: hash h0 is stored under owner B, AddItemsForNode for owner A
  with one item of hash h0 returns no error, and afterwards the only stored row still
  belongs to B, so A has no stored item although one was given.
\<close>

theorem AddItemsForNode_foreign_hash_counterexample:
  "AddItemsForNode no_fault ''A'' [example_item ''h0'' [''a'', ''b'']]
     \<lparr>nodes = [], items = [(''h0'', item_row_of ''B'' (example_item ''h0'' []))]\<rparr> =
     (None, \<lparr>nodes = [],
             items = [(''h0'', item_row_of ''B'' (example_item ''h0'' [''a'', ''b'']))]\<rparr>) \<and>
   owner (item_row_of ''B'' (example_item ''h0'' [''a'', ''b''])) \<noteq> Some ''A''"
  by (simp add: run_simps)

subsection \<open>A hash stored under another owner\<close>



subsection \<open>Failure\<close>

lemma add_items_outcome:
  "add_items f k o' its t = Inr (foldl (\<lambda>tx i. upsert_item o' i tx) t its) \<or>
   add_items f k o' its t = Inl ErrDriver"
  by (induction its arbitrary: k t) auto

text \<open>
  Claim C5. Whichever round trips fail, an AddItemsForNode that returns an error leaves
  the committed database as it was, nodes and items; and every call either returns no
  error and has committed the delete and all the inserts, or returns an error and has
  committed nothing.
\<close>

theorem AddItemsForNode_failure_rolls_back:
  "(AddItemsForNode f o' its d = (Some e, d') \<longrightarrow> d' = d) \<and>
   (AddItemsForNode f o' its d = (None, d\<lparr>items := replace_items o' its (items d)\<rparr>) \<or>
    AddItemsForNode f o' its d = (Some ErrDriver, d))"
proof
  show "AddItemsForNode f o' its d = (Some e, d') \<longrightarrow> d' = d"
    by (auto simp: AddItemsForNode_def split: if_splits sum.splits)
  show "AddItemsForNode f o' its d = (None, d\<lparr>items := replace_items o' its (items d)\<rparr>) \<or>
    AddItemsForNode f o' its d = (Some ErrDriver, d)"
    using add_items_outcome [of f 1 o' its "delete_where (\<lambda>r. owner r = Some o') (items d)"]
    by (auto simp: AddItemsForNode_def replace_items_def)
qed

theorem AddItemsForNode_failure_rolls_back_witness:
  "AddItemsForNode (\<lambda>s. s = Exec 2) ''A'' [example_item ''h1'' [], example_item ''h2'' []]
     example_catalog = (Some ErrDriver, example_catalog) \<and>
   AddItemsForNode (\<lambda>s. s = Commit) ''A'' [example_item ''h1'' [], example_item ''h2'' []]
     example_catalog = (Some ErrDriver, example_catalog)"
proof -
  have "\<exists>d'. AddItemsForNode (\<lambda>s. s = Exec 2) ''A'' [example_item ''h1'' [], example_item ''h2'' []]
     example_catalog = (Some ErrDriver, d')"
    by (simp add: AddItemsForNode_def)
  moreover have "\<exists>d'. AddItemsForNode (\<lambda>s. s = Commit) ''A''
     [example_item ''h1'' [], example_item ''h2'' []] example_catalog = (Some ErrDriver, d')"
    by (simp add: AddItemsForNode_def)
  ultimately show ?thesis
    using AddItemsForNode_failure_rolls_back by blast
qed

subsection \<open>The joined columns\<close>

text \<open>
  Claim C9, as the code has it. After an AddItemsForNode that returns no error, the row
  stored under the hash of a given item (the last one given with that hash) has in
  \<open>thumbnail\<close> the tiny, small and medium URLs in this order with a comma between them,
  and in \<open>categories\<close> the categories in their order with a comma between them. Splitting
  the stored \<open>categories\<close> at the commas gives the list back when the list is not empty
  and no category contains a comma.
\<close>

theorem AddItemsForNode_joined_fields:
  assumes "AddItemsForNode f o' its d = (None, d')"
    and "last_item (Hash i) its = Some i"
  shows "\<exists>r. select_row (Hash i) (items d') = Some r \<and>
           thumbnail r =
             Some (Tiny (Thumbnail i) @ '','' @ Small (Thumbnail i) @ '','' @ Medium (Thumbnail i)) \<and>
           categories r = Some (Join (Categories i) '','') \<and>
           (Categories i \<noteq> [] \<and> (\<forall>c\<in>set (Categories i). CHR '','' \<notin> set c) \<longrightarrow>
              map_option split_commas (categories r) = Some (Categories i))"
proof -
  let ?t0 = "delete_where (\<lambda>r. owner r = Some o') (items d)"
  have sel: "select_row (Hash i) (items d') =
      Some (case select_row (Hash i) ?t0 of
              None \<Rightarrow> item_row_of o' i | Some r \<Rightarrow> update_item i r)"
    by (simp add: AddItemsForNode_success [OF assms(1)] replace_items_def select_upsert_items
        assms(2))
  show ?thesis
    unfolding sel
    by (cases "select_row (Hash i) ?t0")
       (simp_all add: item_row_of_def update_item_def thumbnail_field_def split_commas_Join)
qed

theorem AddItemsForNode_joined_fields_witness:
  "AddItemsForNode no_fault ''A'' [example_item ''h1'' [''a'', ''b'']] example_catalog =
     (None, \<lparr>nodes = [],
             items = [(''h0'', item_row_of ''B'' (example_item ''h0'' [])),
                      (''h1'', item_row_of ''A'' (example_item ''h1'' [''a'', ''b'']))]\<rparr>) \<and>
   (\<exists>r. select_row ''h1'' [(''h0'', item_row_of ''B'' (example_item ''h0'' [])),
                      (''h1'', item_row_of ''A'' (example_item ''h1'' [''a'', ''b'']))] = Some r \<and>
        thumbnail r = Some '',,'' \<and> categories r = Some ''a,b'' \<and>
        map_option split_commas (categories r) = Some [''a'', ''b''])"
proof -
  let ?i = "example_item ''h1'' [''a'', ''b'']"
  let ?d' = "\<lparr>nodes = [],
             items = [(''h0'', item_row_of ''B'' (example_item ''h0'' [])),
                      (''h1'', item_row_of ''A'' ?i)]\<rparr>"
  have run: "AddItemsForNode no_fault ''A'' [?i] example_catalog = (None, ?d')"
    by (simp add: run_simps)
  have last: "last_item (Hash ?i) [?i] = Some ?i"
    by (simp add: last_item_def)
  from AddItemsForNode_joined_fields [OF run last] run show ?thesis
    by (simp add: example_item_def)
qed

text \<open>
  Claim C9 as stated fails on the reconstruction: the one category \<open>a,b\<close> and the two
  categories \<open>a\<close>, \<open>b\<close> are different lists, and storing an item with either of them
  commits the same database, so the stored string does not tell which list was given.
\<close>

theorem categories_not_injective_counterexample:
  "Categories (example_item ''h1'' [''a,b'']) \<noteq> Categories (example_item ''h1'' [''a'', ''b'']) \<and>
   AddItemsForNode no_fault ''A'' [example_item ''h1'' [''a,b'']] empty_database =
   AddItemsForNode no_fault ''A'' [example_item ''h1'' [''a'', ''b'']] empty_database \<and>
   fst (AddItemsForNode no_fault ''A'' [example_item ''h1'' [''a,b'']] empty_database) = None"
  by (simp add: run_simps empty_database_def)

subsection \<open>The rows of other owners\<close>

text \<open>
  Claim C10. After an AddItemsForNode that returns no error, a row that was stored under
  another owner and whose hash is not the hash of any given item is stored unchanged,
  and the node table is as before.
\<close>

theorem AddItemsForNode_frame:
  assumes "AddItemsForNode f o' its d = (None, d')"
    and "(h, r) \<in> set (items d)" and "owner r \<noteq> Some o'" and "h \<notin> Hash ` set its"
  shows "(h, r) \<in> set (items d') \<and> nodes d' = nodes d"
proof -
  from assms(4) have "last_item h its = None" by (simp add: last_item_None)
  with kept_by_replace_items [OF assms(2,3), of its] show ?thesis
    by (simp add: AddItemsForNode_success [OF assms(1)])
qed

theorem AddItemsForNode_frame_witness:
  "AddItemsForNode no_fault ''A'' [example_item ''h1'' [''a'', ''b'']] example_catalog =
     (None, \<lparr>nodes = [],
             items = [(''h0'', item_row_of ''B'' (example_item ''h0'' [])),
                      (''h1'', item_row_of ''A'' (example_item ''h1'' [''a'', ''b'']))]\<rparr>) \<and>
   (''h0'', item_row_of ''B'' (example_item ''h0'' [])) \<in> set (items example_catalog) \<and>
   owner (item_row_of ''B'' (example_item ''h0'' [])) \<noteq> Some ''A'' \<and>
   ''h0'' \<notin> Hash ` set [example_item ''h1'' [''a'', ''b'']] \<and>
   (''h0'', item_row_of ''B'' (example_item ''h0'' [])) \<in>
     set [(''h0'', item_row_of ''B'' (example_item ''h0'' [])),
          (''h1'', item_row_of ''A'' (example_item ''h1'' [''a'', ''b'']))]"
proof -
  let ?d' = "\<lparr>nodes = [],
             items = [(''h0'', item_row_of ''B'' (example_item ''h0'' [])),
                      (''h1'', item_row_of ''A'' (example_item ''h1'' [''a'', ''b'']))]\<rparr>"
  have run: "AddItemsForNode no_fault ''A'' [example_item ''h1'' [''a'', ''b'']] example_catalog
      = (None, ?d')"
    by (simp add: run_simps)
  have row: "(''h0'', item_row_of ''B'' (example_item ''h0'' [])) \<in> set (items example_catalog)"
    by (simp add: example_catalog_def)
  have other: "owner (item_row_of ''B'' (example_item ''h0'' [])) \<noteq> Some ''A''"
    by (simp add: item_row_of_def)
  have fresh: "''h0'' \<notin> Hash ` set [example_item ''h1'' [''a'', ''b'']]"
    by (simp add: example_item_def)
  from AddItemsForNode_frame [OF run row other fresh] run row other fresh show ?thesis
    by simp
qed

end
